theory Spec2Isabelle
  imports Main "HOL-Library.AList" "HOL-Library.Word"
begin

section \<open>Usage counter\<close>

text \<open>
  \<^verbatim>\<open>scrapeStats\<close> is a plain JavaScript object of three levels: month, url, mode, with a
  number at the leaves. Each level is modelled by the list of its own properties. A
  property read \<^verbatim>\<open>obj[key]\<close> on a plain object first looks at the own properties and then
  at the members every plain object inherits from \<^verbatim>\<open>Object.prototype\<close>; a key that is
  neither yields \<^verbatim>\<open>undefined\<close>.

  A count is a JavaScript number, a double. The model keeps the integers among the
  doubles and \<^verbatim>\<open>NaN\<close>, which is what \<^verbatim>\<open>++\<close> produces from a value that is not a number.
\<close>

datatype jsnum = Num int | NaN

type_synonym ModeCounts = "(string \<times> jsnum) list"
type_synonym UrlCounts = "(string \<times> ModeCounts) list"
type_synonym ScrapeStats = "(string \<times> UrlCounts) list"

definition object_prototype_names :: "string list" where
  "object_prototype_names =
     [''constructor'', ''__proto__'', ''hasOwnProperty'', ''isPrototypeOf'',
      ''propertyIsEnumerable'', ''toLocaleString'', ''toString'', ''valueOf'',
      ''__defineGetter__'', ''__defineSetter__'', ''__lookupGetter__'', ''__lookupSetter__'']"

datatype 'a lookup = Own 'a | Inherited | Missing

definition js_get :: "(string \<times> 'a) list \<Rightarrow> string \<Rightarrow> 'a lookup" where
  "js_get obj k =
     (case map_of obj k of
        Some v \<Rightarrow> Own v
      | None \<Rightarrow> if k \<in> set object_prototype_names then Inherited else Missing)"

text \<open>
  \<^verbatim>\<open>!obj[key]\<close> at a leaf: a number is falsy when it is \<open>0\<close> or \<^verbatim>\<open>NaN\<close>, \<^verbatim>\<open>undefined\<close> is
  falsy, an inherited member (a function or an object) is truthy.
\<close>

fun truthy_count :: "jsnum lookup \<Rightarrow> bool" where
  "truthy_count (Own (Num n)) = (n \<noteq> 0)"
| "truthy_count (Own NaN) = False"
| "truthy_count Inherited = True"
| "truthy_count Missing = False"

text \<open>
  The numeric value \<^verbatim>\<open>++\<close> reads: \<^verbatim>\<open>undefined\<close> and the inherited members convert to
  \<^verbatim>\<open>NaN\<close>.
\<close>

fun to_number :: "jsnum lookup \<Rightarrow> jsnum" where
  "to_number (Own v) = v"
| "to_number Inherited = NaN"
| "to_number Missing = NaN"

text \<open>
  \<^verbatim>\<open>n + 1\<close> on doubles. Up to \<open>2 ^ 53\<close> in magnitude the sum is exact. Beyond, the doubles
  are the even integers (up to \<open>2 ^ 54\<close>) and then the multiples of four and more: the
  sum \<open>n + 1\<close> is not a double and is rounded to the nearest one, a tie going to the
  double with the even significand. So \<open>2 ^ 53 + 1\<close> is \<open>2 ^ 53\<close> again.
\<close>

definition double_succ :: "int \<Rightarrow> int" where
  "double_succ n =
     (if \<bar>n + 1\<bar> \<le> 2 ^ 53 then n + 1
      else if \<bar>n + 1\<bar> < 2 ^ 54 then (if n mod 4 = 0 then n else n + 2)
      else n)"

fun js_succ :: "jsnum \<Rightarrow> jsnum" where
  "js_succ (Num n) = Num (double_succ n)"
| "js_succ NaN = NaN"

text \<open>
  The assignment \<^verbatim>\<open>obj[key] = v\<close> of a number: an own property is overwritten; otherwise a
  new own property is created, except under the key \<^verbatim>\<open>__proto__\<close>, whose inherited setter
  ignores a value that is not an object.
\<close>

definition js_set_count :: "ModeCounts \<Rightarrow> string \<Rightarrow> jsnum \<Rightarrow> ModeCounts" where
  "js_set_count obj k v =
     (if map_of obj k = None \<and> k = ''__proto__'' then obj else AList.update k v obj)"

text \<open>
  Lines 113 to 116 of \<^verbatim>\<open>logScrape\<close>, on the object of one url:
  \<^verbatim>\<open>if (!o[mode]) { o[mode] = 0; }  o[mode]++;\<close>
\<close>

definition init_count :: "ModeCounts \<Rightarrow> string \<Rightarrow> ModeCounts" where
  "init_count obj mode =
     (if \<not> truthy_count (js_get obj mode) then js_set_count obj mode (Num 0) else obj)"

definition incr_count :: "ModeCounts \<Rightarrow> string \<Rightarrow> ModeCounts" where
  "incr_count obj mode = js_set_count obj mode (js_succ (to_number (js_get obj mode)))"

definition bump_mode :: "ModeCounts \<Rightarrow> string \<Rightarrow> ModeCounts" where
  "bump_mode obj mode = incr_count (init_count obj mode) mode"

text \<open>
  The in-memory part of \<^verbatim>\<open>logScrape\<close> (lines 106 to 116). At the month and the url level
  an own property is an object and so truthy, a missing one is created as \<^verbatim>\<open>{}\<close>. An
  inherited member is truthy as well: the code then walks into a built-in object, outside
  the counter structure, and the outcome \<open>BuiltinTouched\<close> records that with the counter
  structure as it stands; the built-in objects are not modelled further.
\<close>

datatype log_outcome = Recorded ScrapeStats | BuiltinTouched ScrapeStats

definition own_or_empty :: "'a list lookup \<Rightarrow> 'a list" where
  "own_or_empty l = (case l of Own v \<Rightarrow> v | Inherited \<Rightarrow> [] | Missing \<Rightarrow> [])"

definition logScrape_mem :: "string \<Rightarrow> string \<Rightarrow> string \<Rightarrow> ScrapeStats \<Rightarrow> log_outcome" where
  "logScrape_mem currentMonth url mode stats =
     (if js_get stats currentMonth = Inherited then BuiltinTouched stats
      else
        let byUrl = own_or_empty (js_get stats currentMonth) in
        if js_get byUrl url = Inherited
        then BuiltinTouched (AList.update currentMonth byUrl stats)
        else
          let byMode = own_or_empty (js_get byUrl url) in
          Recorded (AList.update currentMonth
                      (AList.update url (bump_mode byMode mode) byUrl) stats))"

text \<open>
  What \<^verbatim>\<open>/stats\<close> reports for a month/url/mode triple: the own property chain of the
  structure (inherited members are not serialised).
\<close>

definition stat_count :: "ScrapeStats \<Rightarrow> string \<Rightarrow> string \<Rightarrow> string \<Rightarrow> jsnum option" where
  "stat_count stats month url mode =
     (case map_of stats month of
        None \<Rightarrow> None
      | Some byUrl \<Rightarrow>
          (case map_of byUrl url of
             None \<Rightarrow> None
           | Some byMode \<Rightarrow> map_of byMode mode))"

text \<open>A run of scrapes within one month, each given by its url and mode.\<close>

fun log_all :: "string \<Rightarrow> (string \<times> string) list \<Rightarrow> ScrapeStats \<Rightarrow> log_outcome" where
  "log_all month [] stats = Recorded stats"
| "log_all month ((url, mode) # rest) stats =
     (case logScrape_mem month url mode stats of
        Recorded stats' \<Rightarrow> log_all month rest stats'
      | BuiltinTouched stats' \<Rightarrow> BuiltinTouched stats')"

text \<open>
  The own count of a triple after one \<^verbatim>\<open>logScrape\<close> of it, from the own count before:
  a number gets its successor among the doubles; \<^verbatim>\<open>NaN\<close> is falsy, so it is reset to \<open>0\<close> and then incremented;
  with no own count the name of the mode decides.
\<close>

definition next_count :: "jsnum option \<Rightarrow> string \<Rightarrow> jsnum option" where
  "next_count old mode =
     (case old of
        Some (Num n) \<Rightarrow> Some (Num (double_succ n))
      | Some NaN \<Rightarrow> Some (Num 1)
      | None \<Rightarrow> if mode \<in> set object_prototype_names
                then (if mode = ''__proto__'' then None else Some NaN)
                else Some (Num 1))"

definition count_value :: "jsnum option \<Rightarrow> int" where
  "count_value old = (case old of Some (Num n) \<Rightarrow> n | Some NaN \<Rightarrow> 0 | None \<Rightarrow> 0)"

fun is_number_or_absent :: "jsnum option \<Rightarrow> bool" where
  "is_number_or_absent None = True"
| "is_number_or_absent (Some (Num n)) = True"
| "is_number_or_absent (Some NaN) = False"

subsection \<open>The current month\<close>

text \<open>
  \<^verbatim>\<open>getCurrentMonth\<close> reads the wall clock; the model takes the year and the month index
  (\<open>0\<close> to \<open>11\<close>) the clock gave.
\<close>

fun show_nat :: "nat \<Rightarrow> string" where
  "show_nat n =
     (if n < 10 then [''0123456789'' ! n]
      else show_nat (n div 10) @ [''0123456789'' ! (n mod 10)])"

declare show_nat.simps [simp del]

definition padStart2 :: "string \<Rightarrow> string" where
  "padStart2 s = replicate (2 - length s) (CHR ''0'') @ s"

definition getCurrentMonth :: "nat \<times> nat \<Rightarrow> string" where
  "getCurrentMonth date = show_nat (fst date) @ ''-'' @ padStart2 (show_nat (snd date + 1))"

subsection \<open>Persistence\<close>

datatype error = Error string

record server_state =
  scrapeStats :: ScrapeStats
  stats_file :: "ScrapeStats option"

text \<open>
  The outcomes of the file system calls of one request. \<^verbatim>\<open>ensureDataDir\<close> catches and
  logs a failure of \<^verbatim>\<open>mkdir\<close>; \<^verbatim>\<open>saveStats\<close> lets a failure of \<^verbatim>\<open>writeFile\<close> through.
  The file holds the structure that was serialised last.
\<close>

record fs_outcomes =
  fs_mkdir :: "error + unit"
  fs_writeFile :: "error + unit"

definition ensureDataDir :: "fs_outcomes \<Rightarrow> unit" where
  "ensureDataDir fs = (case fs_mkdir fs of Inl e \<Rightarrow> () | Inr u \<Rightarrow> ())"

definition saveStats :: "fs_outcomes \<Rightarrow> server_state \<Rightarrow> error + server_state" where
  "saveStats fs st =
     (let dir = ensureDataDir fs
      in case fs_writeFile fs of
           Inl e \<Rightarrow> Inl e
         | Inr u \<Rightarrow> Inr (st\<lparr>stats_file := Some (scrapeStats st)\<rparr>))"

text \<open>
  \<^verbatim>\<open>logScrape\<close>: the in-memory update, then \<^verbatim>\<open>await saveStats()\<close>. The result is the
  error the call raises, if any, and the state it leaves. Where the update walked into
  a built-in object, \<open>builtin_assign\<close> says whether the assignment there raised.
\<close>

definition logScrape ::
  "nat \<times> nat \<Rightarrow> fs_outcomes \<Rightarrow> error + unit \<Rightarrow> string \<Rightarrow> string \<Rightarrow> server_state
     \<Rightarrow> (error + unit) \<times> server_state" where
  "logScrape date fs builtin_assign url mode st =
     (case logScrape_mem (getCurrentMonth date) url mode (scrapeStats st) of
        Recorded stats' \<Rightarrow>
          (case saveStats fs (st\<lparr>scrapeStats := stats'\<rparr>) of
             Inl e \<Rightarrow> (Inl e, st\<lparr>scrapeStats := stats'\<rparr>)
           | Inr st' \<Rightarrow> (Inr (), st'))
      | BuiltinTouched stats' \<Rightarrow>
          (case builtin_assign of
             Inl e \<Rightarrow> (Inl e, st\<lparr>scrapeStats := stats'\<rparr>)
           | Inr u \<Rightarrow>
               (case saveStats fs (st\<lparr>scrapeStats := stats'\<rparr>) of
                  Inl e \<Rightarrow> (Inl e, st\<lparr>scrapeStats := stats'\<rparr>)
                | Inr st' \<Rightarrow> (Inr (), st'))))"

section \<open>Content extractors\<close>

text \<open>
  A page is given by the outcomes of the calls the extractors and the handler make on
  it. \<^verbatim>\<open>page.content()\<close> is called more than once by the article extractor, so its outcome
  is indexed by the number of earlier calls. The readability pass (\<^verbatim>\<open>JSDOM\<close> and
  \<^verbatim>\<open>Readability.parse\<close>) is a parameter: from the page source it raises, finds no article
  (\<^verbatim>\<open>null\<close>) or returns one.
\<close>

record article =
  title :: string
  byline :: "string option"
  textContent :: string

record meta_tag =
  name_attr :: "string option"
  property_attr :: "string option"
  content_attr :: "string option"

record page =
  page_goto :: "string \<Rightarrow> error + unit"
  page_content :: "nat \<Rightarrow> error + string"
  page_meta_tags :: "error + meta_tag list"
  page_screenshot :: "error + 8 word list"
  page_add_style :: "error + unit"
  page_emulate_print :: "error + unit"
  page_outer_html :: "error + string"
  page_emulate_screen :: "error + unit"
  page_close :: "error + unit"

type_synonym reader = "string \<Rightarrow> error + article option"

definition extractReadableContent :: "reader \<Rightarrow> page \<Rightarrow> nat \<Rightarrow> error + string" where
  "extractReadableContent parse p k =
     (case page_content p k of
        Inl e \<Rightarrow> Inl e
      | Inr html \<Rightarrow>
          (case parse html of
             Inl e \<Rightarrow> Inl e
           | Inr None \<Rightarrow> Inr []
           | Inr (Some a) \<Rightarrow> Inr (textContent a)))"

text \<open>A string or \<^verbatim>\<open>null\<close> is truthy when it is a non-empty string.\<close>

definition truthy_str :: "string option \<Rightarrow> bool" where
  "truthy_str a = (case a of None \<Rightarrow> False | Some s \<Rightarrow> s \<noteq> [])"

text \<open>
  The script evaluated in the page collects \<^verbatim>\<open>data[name] = content\<close> over the meta tags in
  document order, \<^verbatim>\<open>name\<close> being the \<^verbatim>\<open>name\<close> attribute or else the \<^verbatim>\<open>property\<close> attribute.
  \<^verbatim>\<open>data\<close> is a plain object: the assignment of a string under \<^verbatim>\<open>__proto__\<close> is ignored.
\<close>

definition meta_name :: "meta_tag \<Rightarrow> string option" where
  "meta_name t = (if truthy_str (name_attr t) then name_attr t else property_attr t)"

definition js_set_str :: "(string \<times> string) list \<Rightarrow> string \<Rightarrow> string \<Rightarrow> (string \<times> string) list" where
  "js_set_str obj k v =
     (if map_of obj k = None \<and> k = ''__proto__'' then obj else AList.update k v obj)"

fun collect_meta :: "meta_tag list \<Rightarrow> (string \<times> string) list \<Rightarrow> (string \<times> string) list" where
  "collect_meta [] data = data"
| "collect_meta (t # ts) data =
     collect_meta ts
       (if truthy_str (meta_name t) \<and> truthy_str (content_attr t)
        then js_set_str data (the (meta_name t)) (the (content_attr t))
        else data)"

definition relevantMetaTags :: "string list" where
  "relevantMetaTags = [''description'', ''keywords'', ''author'', ''publication_date'']"

abbreviation nl :: string where
  "nl \<equiv> [CHR 0x0A]"

text \<open>
  The loop over \<^verbatim>\<open>relevantMetaTags\<close>, appending to \<^verbatim>\<open>enhancedContent\<close>. None of the four
  names is an inherited member of a plain object, so \<^verbatim>\<open>metadata[tag]\<close> is the own
  property or \<^verbatim>\<open>undefined\<close>.
\<close>

fun add_meta_lines :: "string list \<Rightarrow> (string \<times> string) list \<Rightarrow> string \<Rightarrow> string" where
  "add_meta_lines [] metadata enhancedContent = enhancedContent"
| "add_meta_lines (tag # tags) metadata enhancedContent =
     add_meta_lines tags metadata
       (if truthy_str (map_of metadata tag)
        then enhancedContent @ nl @ tag @ '': '' @ the (map_of metadata tag)
        else enhancedContent)"

definition extractEnhancedArticle :: "reader \<Rightarrow> page \<Rightarrow> error + string" where
  "extractEnhancedArticle parse p =
     (case page_content p 0 of
        Inl e \<Rightarrow> Inl e
      | Inr html \<Rightarrow>
          (case parse html of
             Inl e \<Rightarrow> Inl e
           | Inr None \<Rightarrow> Inr []
           | Inr (Some a) \<Rightarrow>
               (let c1 = ''Title: '' @ title a @ nl @ nl;
                    c2 = (if truthy_str (byline a)
                          then c1 @ ''Author: '' @ the (byline a) @ nl @ nl else c1)
                in case extractReadableContent parse p 1 of
                     Inl e \<Rightarrow> Inl e
                   | Inr text \<Rightarrow>
                       (let c3 = c2 @ ''Content:'' @ nl @ text
                        in case page_meta_tags p of
                             Inl e \<Rightarrow> Inl e
                           | Inr tags \<Rightarrow>
                               Inr (add_meta_lines relevantMetaTags (collect_meta tags [])
                                      (c3 @ nl @ nl @ ''Metadata:''))))))"

subsection \<open>Screenshot, source and print\<close>

definition b64_char :: "nat \<Rightarrow> char" where
  "b64_char i = ''ABCDEFGHIJKLMNOPQRSTUVWXYZabcdefghijklmnopqrstuvwxyz0123456789+/'' ! i"

fun base64 :: "8 word list \<Rightarrow> string" where
  "base64 [] = []"
| "base64 [a] =
     [b64_char (unat a div 4), b64_char ((unat a mod 4) * 16), CHR ''='', CHR ''='']"
| "base64 [a, b] =
     [b64_char (unat a div 4), b64_char ((unat a mod 4) * 16 + unat b div 16),
      b64_char ((unat b mod 16) * 4), CHR ''='']"
| "base64 (a # b # c # rest) =
     [b64_char (unat a div 4), b64_char ((unat a mod 4) * 16 + unat b div 16),
      b64_char ((unat b mod 16) * 4 + unat c div 64), b64_char (unat c mod 64)]
     @ base64 rest"

definition takeScreenshot :: "page \<Rightarrow> error + string" where
  "takeScreenshot p =
     (case page_screenshot p of Inl e \<Rightarrow> Inl e | Inr bytes \<Rightarrow> Inr (base64 bytes))"

definition getPageSource :: "page \<Rightarrow> error + string" where
  "getPageSource p = page_content p 0"

definition getPrintVersion :: "page \<Rightarrow> error + string" where
  "getPrintVersion p =
     (case page_add_style p of
        Inl e \<Rightarrow> Inl e
      | Inr u1 \<Rightarrow>
          (case page_emulate_print p of
             Inl e \<Rightarrow> Inl e
           | Inr u2 \<Rightarrow>
               (case page_outer_html p of
                  Inl e \<Rightarrow> Inl e
                | Inr content \<Rightarrow>
                    (case page_emulate_screen p of
                       Inl e \<Rightarrow> Inl e
                     | Inr u3 \<Rightarrow> Inr content))))"

section \<open>Request handler\<close>

text \<open>
  The body of a \<^verbatim>\<open>POST /scrape\<close> request is absent (or the JSON \<^verbatim>\<open>null\<close>), or it is a JSON
  object whose \<^verbatim>\<open>url\<close> and \<^verbatim>\<open>mode\<close> fields may be absent; nothing checks \<^verbatim>\<open>mode\<close> against
  the five names of the interface. The handler runs once the \<^verbatim>\<open>preHandler\<close> hook has
  accepted the API key. An error the handler raises outside its \<^verbatim>\<open>try\<close> block is answered
  by the framework, with status 500 and a body of its own.
\<close>

record ScrapeRequest =
  body_url :: "string option"
  body_mode :: "string option"

datatype reply_body = ErrorBody string | ContentBody string | FrameworkError

datatype reply = Reply nat reply_body

text \<open>
  The \<^verbatim>\<open>switch\<close> on \<^verbatim>\<open>mode\<close>: four names have a case of their own; \<^verbatim>\<open>'text'\<close> shares the
  \<^verbatim>\<open>default\<close> branch.
\<close>

definition dispatch :: "reader \<Rightarrow> page \<Rightarrow> string option \<Rightarrow> error + string" where
  "dispatch parse p mode =
     (if mode = Some ''screenshot'' then takeScreenshot p
      else if mode = Some ''source'' then getPageSource p
      else if mode = Some ''print'' then getPrintVersion p
      else if mode = Some ''article'' then extractEnhancedArticle parse p
      else extractReadableContent parse p 0)"

text \<open>The property key an absent \<^verbatim>\<open>mode\<close> turns into.\<close>

definition mode_key :: "string option \<Rightarrow> string" where
  "mode_key mode = (case mode of None \<Rightarrow> ''undefined'' | Some m \<Rightarrow> m)"

text \<open>
  What the handler calls on the browser, the page and the counter, in order. The browser
  handle also offers \<^verbatim>\<open>close\<close>.
\<close>

datatype event =
  GetBrowser | NewPage | Goto string | Extract | LogScrape | PageClose | BrowserClose

record browser =
  newPage :: "error + page"

record env =
  clock :: "nat \<times> nat"
  readability :: reader
  acquire :: "error + browser"
  files :: fs_outcomes
  builtin_assign :: "error + unit"

text \<open>
  The \<^verbatim>\<open>try\<close> block: the value it computes or the error it raises, the state it leaves,
  the page if one was opened, and the calls made.
\<close>

definition scrape_try ::
  "env \<Rightarrow> string \<Rightarrow> string option \<Rightarrow> server_state
     \<Rightarrow> (error + string) \<times> server_state \<times> page option \<times> event list" where
  "scrape_try ev url mode st =
     (case acquire ev of
        Inl e \<Rightarrow> (Inl e, st, None, [GetBrowser])
      | Inr b \<Rightarrow>
          (case newPage b of
             Inl e \<Rightarrow> (Inl e, st, None, [GetBrowser, NewPage])
           | Inr p \<Rightarrow>
               (case page_goto p url of
                  Inl e \<Rightarrow> (Inl e, st, Some p, [GetBrowser, NewPage, Goto url])
                | Inr u \<Rightarrow>
                    (case dispatch (readability ev) p mode of
                       Inl e \<Rightarrow> (Inl e, st, Some p, [GetBrowser, NewPage, Goto url, Extract])
                     | Inr result \<Rightarrow>
                         (case logScrape (clock ev) (files ev) (builtin_assign ev)
                                 url (mode_key mode) st of
                            (Inl e, st') \<Rightarrow>
                              (Inl e, st', Some p,
                               [GetBrowser, NewPage, Goto url, Extract, LogScrape])
                          | (Inr u, st') \<Rightarrow>
                              (Inr result, st', Some p,
                               [GetBrowser, NewPage, Goto url, Extract, LogScrape]))))))"

text \<open>\<^verbatim>\<open>await page.close().catch(console.error)\<close>: a failure of \<^verbatim>\<open>close\<close> is logged and dropped.\<close>

definition close_page :: "page \<Rightarrow> event list \<Rightarrow> event list" where
  "close_page p calls =
     (case page_close p of Inl e \<Rightarrow> calls @ [PageClose] | Inr u \<Rightarrow> calls @ [PageClose])"

text \<open>
  The handler. Line 136 takes \<^verbatim>\<open>url\<close> and \<^verbatim>\<open>mode\<close> out of \<^verbatim>\<open>request.body\<close>, before the check
  of \<^verbatim>\<open>url\<close> and outside the \<^verbatim>\<open>try\<close> block: with no body this raises a \<^verbatim>\<open>TypeError\<close>, which
  the framework answers. Then come the check of \<^verbatim>\<open>url\<close> (absent or empty is falsy), the
  \<^verbatim>\<open>try\<close> block, the \<^verbatim>\<open>catch\<close> that answers 500, and the \<^verbatim>\<open>finally\<close> that closes the page if
  there is one, swallowing a failure of \<^verbatim>\<open>close\<close>.
\<close>

definition scrape_handler ::
  "env \<Rightarrow> ScrapeRequest option \<Rightarrow> server_state \<Rightarrow> reply \<times> server_state \<times> event list" where
  "scrape_handler ev body st =
     (case body of
        None \<Rightarrow> (Reply 500 FrameworkError, st, [])
      | Some req \<Rightarrow>
          (if \<not> truthy_str (body_url req)
           then (Reply 400 (ErrorBody ''URL is required''), st, [])
           else
             (case scrape_try ev (the (body_url req)) (body_mode req) st of
                (r, st', pg, calls) \<Rightarrow>
                  ((case r of
                      Inl e \<Rightarrow>
                        Reply 500 (ErrorBody ''An error occurred while scraping the website'')
                    | Inr result \<Rightarrow> Reply 200 (ContentBody result)),
                   st',
                   (case pg of None \<Rightarrow> calls | Some p \<Rightarrow> close_page p calls)))))"

definition handler_reply :: "env \<Rightarrow> ScrapeRequest option \<Rightarrow> server_state \<Rightarrow> reply" where
  "handler_reply ev body st = fst (scrape_handler ev body st)"

definition handler_state ::
  "env \<Rightarrow> ScrapeRequest option \<Rightarrow> server_state \<Rightarrow> server_state" where
  "handler_state ev body st = fst (snd (scrape_handler ev body st))"

definition handler_calls ::
  "env \<Rightarrow> ScrapeRequest option \<Rightarrow> server_state \<Rightarrow> event list" where
  "handler_calls ev body st = snd (snd (scrape_handler ev body st))"

section \<open>Browser session\<close>

text \<open>
  \<^verbatim>\<open>getBrowser\<close> is an \<^verbatim>\<open>async\<close> function: between two \<^verbatim>\<open>await\<close>s a call runs without
  interruption, and at an \<^verbatim>\<open>await\<close> other calls and callbacks may run. A call

  \<^item> tests \<^verbatim>\<open>browserPromise\<close>; when it is set, the call returns it;
  \<^item> otherwise awaits \<^verbatim>\<open>which chromium\<close>;
  \<^item> when that has finished, starts a launch, stores its promise in \<^verbatim>\<open>browserPromise\<close>
    and returns the variable's value.

  The launch promise carries the \<^verbatim>\<open>catch\<close> callback, which resets \<^verbatim>\<open>browserPromise\<close> to
  \<^verbatim>\<open>null\<close> and raises the error again. Launches are numbered in the order they start.
\<close>

datatype launch_status = Pending | Launched | Failed

datatype caller_pc = Idle | AwaitWhich | Got nat | Threw

record gb_state =
  browserPromise :: "nat option"
  launches :: "launch_status list"
  pc :: "nat \<Rightarrow> caller_pc"

datatype gb_event =
  Call nat | WhichDone nat | WhichFail nat | LaunchOk nat | LaunchFail nat

definition gb_init :: gb_state where
  "gb_init = \<lparr>browserPromise = None, launches = [], pc = (\<lambda>c. Idle)\<rparr>"

fun gb_step :: "gb_event \<Rightarrow> gb_state \<Rightarrow> gb_state option" where
  "gb_step (Call c) s =
     (if pc s c = Idle
      then (case browserPromise s of
              None \<Rightarrow> Some (s\<lparr>pc := (pc s)(c := AwaitWhich)\<rparr>)
            | Some n \<Rightarrow> Some (s\<lparr>pc := (pc s)(c := Got n)\<rparr>))
      else None)"
| "gb_step (WhichDone c) s =
     (if pc s c = AwaitWhich
      then Some (s\<lparr>browserPromise := Some (length (launches s)),
                   launches := launches s @ [Pending],
                   pc := (pc s)(c := Got (length (launches s)))\<rparr>)
      else None)"
| "gb_step (WhichFail c) s =
     (if pc s c = AwaitWhich then Some (s\<lparr>pc := (pc s)(c := Threw)\<rparr>) else None)"
| "gb_step (LaunchOk n) s =
     (if n < length (launches s) \<and> launches s ! n = Pending
      then Some (s\<lparr>launches := (launches s)[n := Launched]\<rparr>)
      else None)"
| "gb_step (LaunchFail n) s =
     (if n < length (launches s) \<and> launches s ! n = Pending
      then Some (s\<lparr>browserPromise := None, launches := (launches s)[n := Failed]\<rparr>)
      else None)"

fun gb_run :: "gb_event list \<Rightarrow> gb_state \<Rightarrow> gb_state option" where
  "gb_run [] s = Some s"
| "gb_run (e # es) s = (case gb_step e s of None \<Rightarrow> None | Some s' \<Rightarrow> gb_run es s')"

text \<open>The launches in flight, and what a caller of \<^verbatim>\<open>getBrowser\<close> has got so far.\<close>

definition in_flight :: "gb_state \<Rightarrow> nat" where
  "in_flight s = length (filter (\<lambda>l. l = Pending) (launches s))"

datatype caller_result = NotCalled | Waiting | Browser nat | Rejected

definition caller_outcome :: "gb_state \<Rightarrow> nat \<Rightarrow> caller_result" where
  "caller_outcome s c =
     (case pc s c of
        Idle \<Rightarrow> NotCalled
      | AwaitWhich \<Rightarrow> Waiting
      | Threw \<Rightarrow> Rejected
      | Got n \<Rightarrow>
          (if n < length (launches s)
           then (case launches s ! n of
                   Pending \<Rightarrow> Waiting | Launched \<Rightarrow> Browser n | Failed \<Rightarrow> Rejected)
           else Waiting))"

definition pcs_of :: "nat list \<Rightarrow> gb_state \<Rightarrow> caller_pc list" where
  "pcs_of cs s = map (pc s) cs"

section \<open>The article layout in the words of the specification\<close>

text \<open>
  The sections of the article output, one definition each: the title line, the author
  line when the byline is a non-empty string, the content, and the metadata header
  followed by one line for each of the four names that has a value on the page, in the
  order description, keywords, author, publication_date. The value of a name is the
  content of the last meta tag that carries the name (as \<^verbatim>\<open>name\<close>, or else as \<^verbatim>\<open>property\<close>)
  with a non-empty content.
\<close>

definition title_section :: "article \<Rightarrow> string" where
  "title_section a = ''Title: '' @ title a @ nl @ nl"

definition author_section :: "article \<Rightarrow> string" where
  "author_section a =
     (case byline a of
        None \<Rightarrow> []
      | Some b \<Rightarrow> if b = [] then [] else ''Author: '' @ b @ nl @ nl)"

definition content_section :: "string \<Rightarrow> string" where
  "content_section text = ''Content:'' @ nl @ text"

definition matching_contents :: "meta_tag list \<Rightarrow> string \<Rightarrow> string list" where
  "matching_contents tags t =
     map (\<lambda>m. the (content_attr m))
       (filter (\<lambda>m. meta_name m = Some t \<and> truthy_str (content_attr m)) tags)"

definition meta_value :: "meta_tag list \<Rightarrow> string \<Rightarrow> string option" where
  "meta_value tags t =
     (if matching_contents tags t = [] then None else Some (last (matching_contents tags t)))"

definition present_meta :: "meta_tag list \<Rightarrow> (string \<times> string) list" where
  "present_meta tags =
     List.map_filter (\<lambda>t. map_option (Pair t) (meta_value tags t))
       [''description'', ''keywords'', ''author'', ''publication_date'']"

definition meta_line :: "string \<times> string \<Rightarrow> string" where
  "meta_line tv = nl @ fst tv @ '': '' @ snd tv"

definition metadata_section :: "meta_tag list \<Rightarrow> string" where
  "metadata_section tags = nl @ nl @ ''Metadata:'' @ concat (map meta_line (present_meta tags))"

section \<open>Sample inputs\<close>


definition sample_article :: article where
  "sample_article = \<lparr>title = ''T'', byline = Some ''B'', textContent = ''Hello World''\<rparr>"

definition sample_reader :: reader where
  "sample_reader html = (if html = [] then Inr None else Inr (Some sample_article))"

definition sample_page :: page where
  "sample_page =
     \<lparr>page_goto = (\<lambda>u. Inr ()),
      page_content = (\<lambda>k. Inr ''<html></html>''),
      page_meta_tags =
        Inr [\<lparr>name_attr = Some ''author'', property_attr = None, content_attr = Some ''A''\<rparr>],
      page_screenshot = Inr [77, 97, 110],
      page_add_style = Inr (),
      page_emulate_print = Inr (),
      page_outer_html = Inr ''<html></html>'',
      page_emulate_screen = Inr (),
      page_close = Inr ()\<rparr>"

definition bare_page :: page where
  "bare_page = sample_page\<lparr>page_meta_tags := Inr []\<rparr>"

definition unparseable_page :: page where
  "unparseable_page = sample_page\<lparr>page_content := (\<lambda>k. Inr [])\<rparr>"

definition sample_env :: env where
  "sample_env =
     \<lparr>clock = (2026, 10),
      readability = sample_reader,
      acquire = Inr \<lparr>newPage = Inr sample_page\<rparr>,
      files = \<lparr>fs_mkdir = Inr (), fs_writeFile = Inr ()\<rparr>,
      builtin_assign = Inr ()\<rparr>"


definition empty_state :: server_state where
  "empty_state = \<lparr>scrapeStats = [], stats_file = None\<rparr>"

definition sample_body :: "string option \<Rightarrow> ScrapeRequest" where
  "sample_body mode = \<lparr>body_url = Some ''https://example.com'', body_mode = mode\<rparr>"

definition sample_request :: "string option \<Rightarrow> ScrapeRequest option" where
  "sample_request mode = Some (sample_body mode)"


text \<open>
  Two requests on a server that has no browser yet: the second calls \<^verbatim>\<open>getBrowser\<close> while
  the first still awaits \<^verbatim>\<open>which chromium\<close>.
\<close>

definition two_callers :: "gb_event list" where
  "two_callers = [Call 0, Call 1, WhichDone 0, WhichDone 1]"

text \<open>Callers 0 and 1 both hold the promise of launch 0, which is pending.\<close>

definition sample_waiting :: gb_state where
  "sample_waiting =
     \<lparr>browserPromise = Some 0, launches = [Pending],
      pc = (\<lambda>c. if c < 2 then Got 0 else Idle)\<rparr>"

section \<open>Properties of the usage counter\<close>

lemma proto_inherited: "''__proto__'' \<in> set object_prototype_names"
  by (simp add: object_prototype_names_def)

lemma double_succ_zero: "double_succ 0 = 1"
  by (simp add: double_succ_def)

lemma map_of_bump_mode:
  "map_of (bump_mode obj mode) k =
     (if k = mode then next_count (map_of obj mode) mode else map_of obj k)"
  using proto_inherited
  by (auto simp: bump_mode_def incr_count_def init_count_def js_set_count_def js_get_def
      next_count_def update_conv' double_succ_zero split: option.splits jsnum.splits)

lemma map_of_own_or_empty:
  "js_get obj k \<noteq> Inherited \<Longrightarrow>
   map_of (own_or_empty (js_get obj k)) k'
     = (case map_of obj k of None \<Rightarrow> None | Some v \<Rightarrow> map_of v k')"
  by (cases "map_of obj k") (simp_all add: js_get_def own_or_empty_def)

lemma logScrape_mem_Recorded:
  "logScrape_mem m u md stats = Recorded stats' \<Longrightarrow>
   js_get stats m \<noteq> Inherited \<and> js_get (own_or_empty (js_get stats m)) u \<noteq> Inherited \<and>
   stats' = AList.update m (AList.update u
      (bump_mode (own_or_empty (js_get (own_or_empty (js_get stats m)) u)) md)
      (own_or_empty (js_get stats m))) stats"
  by (simp add: logScrape_mem_def Let_def split: if_splits)

text \<open>
  One recorded scrape changes the own count of its own triple, as \<open>next_count\<close> says, and
  of no other triple.
\<close>

lemma stat_count_logScrape:
  assumes "logScrape_mem m u md stats = Recorded stats'"
  shows "stat_count stats' m' u' md' =
     (if m' = m \<and> u' = u \<and> md' = md then next_count (stat_count stats m u md) md
      else stat_count stats m' u' md')"
proof -
  let ?bu = "own_or_empty (js_get stats m)"
  let ?bm = "own_or_empty (js_get ?bu u)"
  from logScrape_mem_Recorded[OF assms]
  have a: "js_get stats m \<noteq> Inherited" and b: "js_get ?bu u \<noteq> Inherited"
    and s: "stats' = AList.update m (AList.update u (bump_mode ?bm md) ?bu) stats"
    by simp_all
  have bm: "map_of ?bm k = stat_count stats m u k" for k
    by (simp add: map_of_own_or_empty[OF b] map_of_own_or_empty[OF a] stat_count_def
        split: option.splits)
  have bu: "map_of ?bu k = (case map_of stats m of None \<Rightarrow> None | Some v \<Rightarrow> map_of v k)" for k
    by (rule map_of_own_or_empty[OF a])
  show ?thesis
    by (simp add: s stat_count_def update_conv' map_of_bump_mode bm bu split: option.splits)
qed

lemma js_get_not_inherited: "k \<notin> set object_prototype_names \<Longrightarrow> js_get obj k \<noteq> Inherited"
  by (simp add: js_get_def split: option.splits)


lemma logScrape_mem_records:
  assumes "m \<notin> set object_prototype_names" "u \<notin> set object_prototype_names"
  shows "\<exists>stats'. logScrape_mem m u md stats = Recorded stats'"
  using assms by (simp add: logScrape_mem_def Let_def js_get_not_inherited)


text \<open>The month key always holds a dash, which no inherited member name does.\<close>

lemma dash_in_month: "CHR ''-'' \<in> set (getCurrentMonth d)"
  by (simp add: getCurrentMonth_def)

lemma month_not_inherited: "getCurrentMonth d \<notin> set object_prototype_names"
proof
  assume "getCurrentMonth d \<in> set object_prototype_names"
  moreover have "\<forall>n \<in> set object_prototype_names. CHR ''-'' \<notin> set n"
    by (simp add: object_prototype_names_def)
  ultimately show False using dash_in_month[of d] by blast
qed

lemma getCurrentMonth_example: "getCurrentMonth (2026, 10) = ''2026-11''"
  by (simp add: getCurrentMonth_def show_nat.simps padStart2_def)

lemma double_succ_exact: "- (2 ^ 53) \<le> n \<Longrightarrow> n < 2 ^ 53 \<Longrightarrow> double_succ n = n + 1"
  by (simp add: double_succ_def)

lemma double_succ_saturates: "double_succ (2 ^ 53) = 2 ^ 53"
  by (simp add: double_succ_def)

lemma next_count_number:
  "mode \<notin> set object_prototype_names \<Longrightarrow> is_number_or_absent old \<Longrightarrow>
   0 \<le> count_value old \<Longrightarrow> count_value old < 2 ^ 53 \<Longrightarrow>
   next_count old mode = Some (Num (count_value old + 1))"
  by (cases old rule: is_number_or_absent.cases)
    (simp_all add: next_count_def count_value_def double_succ_exact)

text \<open>
  Counting under a mode name that plain objects do not inherit, as long as the count stays
  within \<open>2 ^ 53\<close>: after a run of recorded scrapes within one month, the count of a triple
  is its count before plus the number of scrapes of that url and mode in the run; scrapes
  of another url or mode do not change it.
\<close>

lemma log_all_count:
  assumes "mode \<notin> set object_prototype_names"
    and "log_all month reqs stats = Recorded stats'"
    and "is_number_or_absent (stat_count stats month url mode)"
    and "0 \<le> count_value (stat_count stats month url mode)"
    and "count_value (stat_count stats month url mode) + int (count_list reqs (url, mode))
           \<le> 2 ^ 53"
  shows "stat_count stats' month url mode =
     (if count_list reqs (url, mode) = 0 then stat_count stats month url mode
      else Some (Num (count_value (stat_count stats month url mode)
                       + int (count_list reqs (url, mode)))))"
  using assms(2-5)
proof (induction reqs arbitrary: stats)
  case Nil
  then show ?case by simp
next
  case (Cons r reqs)
  let ?old = "count_value (stat_count stats month url mode)"
  obtain u md where r: "r = (u, md)" by (cases r)
  from Cons.prems(1) r obtain s1 where
    s1: "logScrape_mem month u md stats = Recorded s1"
    and rest: "log_all month reqs s1 = Recorded stats'"
    by (auto split: log_outcome.splits)
  show ?case
  proof (cases "(u, md) = (url, mode)")
    case True
    with Cons.prems(4) r have small: "?old < 2 ^ 53" by simp
    have c1: "stat_count s1 month url mode = Some (Num (?old + 1))"
      using True stat_count_logScrape[OF s1, of month url mode]
        next_count_number[OF assms(1) Cons.prems(2) Cons.prems(3) small]
      by simp
    then have v1: "count_value (stat_count s1 month url mode) = ?old + 1"
      by (simp add: count_value_def)
    have i1: "is_number_or_absent (stat_count s1 month url mode)" using c1 by simp
    have i2: "0 \<le> count_value (stat_count s1 month url mode)"
      using v1 Cons.prems(3) by simp
    have i3: "count_value (stat_count s1 month url mode) + int (count_list reqs (url, mode))
                \<le> 2 ^ 53"
      using v1 Cons.prems(4) True r by simp
    from Cons.IH[OF rest i1 i2 i3] v1 c1 True r show ?thesis
      by simp
  next
    case False
    then have c1: "stat_count s1 month url mode = stat_count stats month url mode"
      using stat_count_logScrape[OF s1, of month url mode] by auto
    have i1: "is_number_or_absent (stat_count s1 month url mode)"
      using c1 Cons.prems(2) by simp
    have i2: "0 \<le> count_value (stat_count s1 month url mode)"
      using c1 Cons.prems(3) by simp
    have i3: "count_value (stat_count s1 month url mode) + int (count_list reqs (url, mode))
                \<le> 2 ^ 53"
      using c1 Cons.prems(4) False r by auto
    from Cons.IH[OF rest i1 i2 i3] c1 False r show ?thesis by auto
  qed
qed

lemma log_all_records:
  assumes "month \<notin> set object_prototype_names"
    and "list_all (\<lambda>r. fst r \<notin> set object_prototype_names) reqs"
  shows "\<exists>stats'. log_all month reqs stats = Recorded stats'"
  using assms(2)
proof (induction reqs arbitrary: stats)
  case Nil
  then show ?case by simp
next
  case (Cons r reqs)
  obtain u md where r: "r = (u, md)" by (cases r)
  with Cons.prems have "u \<notin> set object_prototype_names" by simp
  from logScrape_mem_records[OF assms(1) this] obtain s1 where
    "logScrape_mem month u md stats = Recorded s1" by blast
  moreover from Cons.prems have "list_all (\<lambda>r. fst r \<notin> set object_prototype_names) reqs"
    by simp
  from Cons.IH[OF this] obtain s2 where "log_all month reqs s1 = Recorded s2" by blast
  ultimately show ?case using r by simp
qed

lemmas count_eval = logScrape_mem_def js_get_def own_or_empty_def bump_mode_def init_count_def
  incr_count_def js_set_count_def object_prototype_names_def stat_count_def double_succ_def

lemmas sample_eval = sample_page_def sample_reader_def sample_article_def sample_env_def
  sample_request_def sample_body_def empty_state_def

section \<open>Properties of the extractors\<close>

lemma base64_examples:
  "base64 [77, 97, 110] = ''TWFu''" "base64 [77, 97] = ''TWE=''" "base64 [77] = ''TQ==''"
  by (simp_all add: b64_char_def)

lemma map_of_js_set_str:
  "k \<noteq> ''__proto__'' \<Longrightarrow>
   map_of (js_set_str obj n v) k = (if k = n then Some v else map_of obj k)"
  by (simp add: js_set_str_def update_conv')

lemma truthy_strE: "truthy_str a \<Longrightarrow> \<exists>s. a = Some s \<and> s \<noteq> []"
  by (cases a) (simp_all add: truthy_str_def)

lemma meta_value_Cons:
  "meta_value (m # tags) t =
     (case meta_value tags t of
        Some v \<Rightarrow> Some v
      | None \<Rightarrow> if meta_name m = Some t \<and> truthy_str (content_attr m)
                then content_attr m else None)"
  by (auto simp: meta_value_def matching_contents_def dest!: truthy_strE)

lemma meta_value_truthy: "meta_value tags t = Some v \<Longrightarrow> v \<noteq> []"
proof (induction tags)
  case Nil
  then show ?case by (simp add: meta_value_def matching_contents_def)
next
  case (Cons m tags)
  then show ?case
    by (auto simp: meta_value_Cons truthy_str_def split: option.splits if_splits)
qed

text \<open>
  The object the in-page script builds holds, under every name but the empty one and
  \<^verbatim>\<open>__proto__\<close>, the value the page has for that name.
\<close>

lemma map_of_collect_meta:
  "t \<noteq> ''__proto__'' \<Longrightarrow> t \<noteq> [] \<Longrightarrow>
   map_of (collect_meta tags data) t =
     (case meta_value tags t of None \<Rightarrow> map_of data t | Some v \<Rightarrow> Some v)"
proof (induction tags arbitrary: data)
  case Nil
  then show ?case by (simp add: meta_value_def matching_contents_def)
next
  case (Cons m tags)
  show ?case
  proof (cases "truthy_str (meta_name m) \<and> truthy_str (content_attr m)")
    case True
    then obtain n c where n: "meta_name m = Some n" and c: "content_attr m = Some c"
      by (auto dest!: truthy_strE)
    with True Cons show ?thesis
      by (auto simp: meta_value_Cons map_of_js_set_str split: option.splits)
  next
    case False
    with Cons show ?thesis
      by (auto simp: meta_value_Cons truthy_str_def split: option.splits)
  qed
qed

lemma add_meta_lines_app:
  "add_meta_lines ts md acc =
     acc @ concat (map meta_line (List.map_filter
        (\<lambda>t. if truthy_str (map_of md t) then Some (t, the (map_of md t)) else None) ts))"
  by (induction ts arbitrary: acc) (simp_all add: map_filter_simps meta_line_def)

lemma map_filter_cong_set:
  "(\<And>x. x \<in> set xs \<Longrightarrow> f x = g x) \<Longrightarrow> List.map_filter f xs = List.map_filter g xs"
proof (induction xs)
  case Nil
  then show ?case by (simp add: map_filter_simps)
next
  case (Cons a xs)
  then have "f a = g a" and "List.map_filter f xs = List.map_filter g xs" by simp_all
  then show ?case by (simp add: map_filter_simps split: option.splits)
qed

lemma relevant_not_proto: "t \<in> set relevantMetaTags \<Longrightarrow> t \<noteq> ''__proto__'' \<and> t \<noteq> []"
  by (auto simp: relevantMetaTags_def)

lemma relevant_not_inherited:
  "t \<in> set relevantMetaTags \<Longrightarrow> t \<notin> set object_prototype_names"
  by (auto simp: relevantMetaTags_def object_prototype_names_def)

lemma metadata_lines:
  "add_meta_lines relevantMetaTags (collect_meta tags []) acc
     = acc @ concat (map meta_line (present_meta tags))"
proof -
  have "(if truthy_str (map_of (collect_meta tags []) t)
         then Some (t, the (map_of (collect_meta tags []) t)) else None)
        = map_option (Pair t) (meta_value tags t)" if "t \<in> set relevantMetaTags" for t
    using relevant_not_proto[OF that] meta_value_truthy[of tags t]
    by (cases "meta_value tags t") (simp_all add: map_of_collect_meta truthy_str_def)
  then have "List.map_filter (\<lambda>t. if truthy_str (map_of (collect_meta tags []) t)
                 then Some (t, the (map_of (collect_meta tags []) t)) else None) relevantMetaTags
     = List.map_filter (\<lambda>t. map_option (Pair t) (meta_value tags t)) relevantMetaTags"
    by (rule map_filter_cong_set)
  then show ?thesis
    by (simp add: add_meta_lines_app present_meta_def relevantMetaTags_def)
qed

text \<open>
  C3. When the readability pass produces an article (and the later reads of the page
  succeed, so that there is an output), the output of \<^verbatim>\<open>extractEnhancedArticle\<close> is the
  title section, the author section (empty unless the byline is a non-empty string), the
  content section and the metadata section, in this order; the metadata section lists
  those of description, keywords, author, publication_date that have a value on the
  page, in that order.
\<close>

theorem article_sections_in_order:
  assumes "page_content p 0 = Inr html"
    and "parse html = Inr (Some a)"
    and "extractReadableContent parse p 1 = Inr text"
    and "page_meta_tags p = Inr tags"
  shows "extractEnhancedArticle parse p =
           Inr (title_section a @ author_section a @ content_section text @ metadata_section tags)"
  using assms
  by (simp add: extractEnhancedArticle_def Let_def metadata_lines title_section_def
      author_section_def content_section_def metadata_section_def truthy_str_def
      split: option.splits)

theorem article_sections_in_order_witness:
  "page_content sample_page 0 = Inr ''<html></html>''
   \<and> sample_reader ''<html></html>'' = Inr (Some sample_article)
   \<and> extractReadableContent sample_reader sample_page 1 = Inr ''Hello World''
   \<and> extractEnhancedArticle sample_reader sample_page
       = Inr (''Title: T'' @ nl @ nl @ ''Author: B'' @ nl @ nl @ ''Content:'' @ nl @ ''Hello World''
              @ nl @ nl @ ''Metadata:'' @ nl @ ''author: A'')"
proof -
  have 1: "page_content sample_page 0 = Inr ''<html></html>''"
    by (simp add: sample_page_def)
  have 2: "sample_reader ''<html></html>'' = Inr (Some sample_article)"
    by (simp add: sample_reader_def)
  have 3: "extractReadableContent sample_reader sample_page 1 = Inr ''Hello World''"
    by (simp add: extractReadableContent_def sample_eval)
  have 4: "page_meta_tags sample_page
     = Inr [\<lparr>name_attr = Some ''author'', property_attr = None, content_attr = Some ''A''\<rparr>]"
    by (simp add: sample_page_def)
  from article_sections_in_order[OF 1 2 3 4] 1 2 3 show ?thesis
    by (simp add: title_section_def author_section_def content_section_def metadata_section_def
        present_meta_def meta_value_def matching_contents_def meta_name_def truthy_str_def
        meta_line_def map_filter_simps sample_article_def)
qed

text \<open>
  C10. When the readability pass produces an article, the output of
  \<^verbatim>\<open>extractEnhancedArticle\<close> contains the header \<^verbatim>\<open>Metadata:\<close>; when none of the four names
  has a value on the page, nothing follows the header.
\<close>

theorem metadata_header_always:
  assumes "page_content p 0 = Inr html"
    and "parse html = Inr (Some a)"
    and "extractReadableContent parse p 1 = Inr text"
    and "page_meta_tags p = Inr tags"
  shows "\<exists>pre post. extractEnhancedArticle parse p = Inr (pre @ ''Metadata:'' @ post)
           \<and> (list_all (\<lambda>t. meta_value tags t = None) relevantMetaTags \<longrightarrow> post = [])"
proof -
  let ?c2 = "(if truthy_str (byline a)
              then ''Title: '' @ title a @ nl @ nl @ ''Author: '' @ the (byline a) @ nl @ nl
              else ''Title: '' @ title a @ nl @ nl)"
  let ?pre = "?c2 @ ''Content:'' @ nl @ text @ nl @ nl"
  let ?post = "concat (map meta_line (present_meta tags))"
  have "extractEnhancedArticle parse p = Inr (?pre @ ''Metadata:'' @ ?post)"
    using assms by (simp add: extractEnhancedArticle_def Let_def metadata_lines)
  moreover have "list_all (\<lambda>t. meta_value tags t = None) relevantMetaTags \<longrightarrow> ?post = []"
    by (simp add: relevantMetaTags_def present_meta_def map_filter_simps)
  ultimately show ?thesis by blast
qed

theorem metadata_header_always_witness:
  "page_content bare_page 0 = Inr ''<html></html>''
   \<and> sample_reader ''<html></html>'' = Inr (Some sample_article)
   \<and> page_meta_tags bare_page = Inr []
   \<and> list_all (\<lambda>t. meta_value [] t = None) relevantMetaTags
   \<and> (\<exists>pre. extractEnhancedArticle sample_reader bare_page = Inr (pre @ ''Metadata:''))"
proof -
  have 1: "page_content bare_page 0 = Inr ''<html></html>''"
    by (simp add: bare_page_def sample_page_def)
  have 2: "sample_reader ''<html></html>'' = Inr (Some sample_article)"
    by (simp add: sample_reader_def)
  have 3: "extractReadableContent sample_reader bare_page 1 = Inr ''Hello World''"
    by (simp add: extractReadableContent_def bare_page_def sample_eval)
  have 4: "page_meta_tags bare_page = Inr []"
    by (simp add: bare_page_def)
  have 5: "list_all (\<lambda>t. meta_value [] t = None) relevantMetaTags"
    by (simp add: relevantMetaTags_def meta_value_def matching_contents_def)
  from metadata_header_always[OF 1 2 3 4] 5
  have "\<exists>pre. extractEnhancedArticle sample_reader bare_page = Inr (pre @ ''Metadata:'')"
    by auto
  with 1 2 4 5 show ?thesis by simp
qed

text \<open>
  C8. When the readability pass finds no article in the source of the page, the text
  extractor returns the empty string, as a value and not as an error.
\<close>

theorem text_empty_when_no_article:
  assumes "page_content p k = Inr html" and "parse html = Inr None"
  shows "extractReadableContent parse p k = Inr []"
  using assms by (simp add: extractReadableContent_def)

theorem text_empty_when_no_article_witness:
  "page_content unparseable_page 0 = Inr [] \<and> sample_reader [] = Inr None
   \<and> extractReadableContent sample_reader unparseable_page 0 = Inr []"
proof -
  have 1: "page_content unparseable_page 0 = Inr []" by (simp add: unparseable_page_def)
  have 2: "sample_reader [] = Inr None" by (simp add: sample_reader_def)
  from text_empty_when_no_article[of unparseable_page 0 "[]" sample_reader] 1 2
  show ?thesis by simp
qed

section \<open>Properties of the request handler\<close>

lemma close_page_calls: "close_page p calls = calls @ [PageClose]"
  by (simp add: close_page_def split: sum.splits)





lemma object_body_without_url_is_400:
  "body_url req = None \<Longrightarrow>
   scrape_handler ev (Some req) st = (Reply 400 (ErrorBody ''URL is required''), st, [])"
  by (simp add: scrape_handler_def truthy_str_def)

text \<open>
  C6. The claim is that every request without a \<^verbatim>\<open>url\<close> is answered 400 with the error
  \<^verbatim>\<open>URL is required\<close>. The handler answers so when the body is an object without \<^verbatim>\<open>url\<close>.
  A request without a body (or with the body \<^verbatim>\<open>null\<close>) has no \<^verbatim>\<open>url\<close> either, but the
  handler takes \<^verbatim>\<open>url\<close> out of the body before it checks it: the request is answered 500
  by the framework and not 400. No call is made and the state is as before.
\<close>

theorem missing_body_is_500:
  "scrape_handler ev None st = (Reply 500 FrameworkError, st, [])
   \<and> handler_reply ev None st \<noteq> Reply 400 (ErrorBody ''URL is required'')"
  by (simp add: scrape_handler_def handler_reply_def)

text \<open>
  C5. The handler never calls \<^verbatim>\<open>close\<close> on the browser. Once a page has been opened, the
  last call the handler makes is the \<^verbatim>\<open>close\<close> of that page, exactly once, whether the
  \<^verbatim>\<open>try\<close> block ended with a result or with an error.
\<close>

theorem page_closed_on_every_path:
  "BrowserClose \<notin> set (handler_calls ev body st) \<and>
   (truthy_str (body_url req) \<longrightarrow> acquire ev = Inr b \<longrightarrow> newPage b = Inr p \<longrightarrow>
      (\<exists>before. handler_calls ev (Some req) st = before @ [PageClose]
          \<and> NewPage \<in> set before \<and> PageClose \<notin> set before))"
  by (auto simp: handler_calls_def scrape_handler_def scrape_try_def close_page_calls
      split: sum.splits prod.splits option.splits)

theorem page_closed_on_every_path_witness:
  "truthy_str (body_url (sample_body None))
   \<and> acquire sample_env = Inr \<lparr>newPage = Inr sample_page\<rparr>
   \<and> newPage \<lparr>newPage = Inr sample_page\<rparr> = Inr sample_page
   \<and> BrowserClose \<notin> set (handler_calls sample_env (sample_request None) empty_state)
   \<and> (\<exists>before. handler_calls sample_env (sample_request None) empty_state = before @ [PageClose]
         \<and> NewPage \<in> set before \<and> PageClose \<notin> set before)"
proof -
  have 1: "truthy_str (body_url (sample_body None))"
    by (simp add: sample_body_def truthy_str_def)
  have 2: "acquire sample_env = Inr \<lparr>newPage = Inr sample_page\<rparr>"
    by (simp add: sample_env_def)
  have 3: "newPage \<lparr>newPage = Inr sample_page\<rparr> = Inr sample_page" by simp
  from page_closed_on_every_path[of sample_env "sample_request None" empty_state
      "sample_body None" "\<lparr>newPage = Inr sample_page\<rparr>" sample_page] 1 2 3
  show ?thesis by (simp add: sample_request_def)
qed






text \<open>
  Counting under a mode name that plain objects do not inherit, from a triple that has no
  count yet: after a run of scrapes within one month that holds \<open>N\<close> scrapes of the url and
  mode, \<open>1 \<le> N \<le> 2 ^ 53\<close>, the count of the triple is \<open>N\<close>.
\<close>

lemma plain_mode_counts:
  assumes "mode \<notin> set object_prototype_names"
    and "list_all (\<lambda>r. fst r \<notin> set object_prototype_names) reqs"
    and "stat_count stats (getCurrentMonth d) url mode = None"
    and "0 < count_list reqs (url, mode)"
    and "int (count_list reqs (url, mode)) \<le> 2 ^ 53"
  shows "\<exists>stats'. log_all (getCurrentMonth d) reqs stats = Recorded stats'
           \<and> stat_count stats' (getCurrentMonth d) url mode
               = Some (Num (int (count_list reqs (url, mode))))"
proof -
  from log_all_records[OF month_not_inherited assms(2)] obtain stats' where
    r: "log_all (getCurrentMonth d) reqs stats = Recorded stats'" by blast
  from assms(3) have "is_number_or_absent (stat_count stats (getCurrentMonth d) url mode)"
    by simp
  moreover have "0 \<le> count_value (stat_count stats (getCurrentMonth d) url mode)"
    and "count_value (stat_count stats (getCurrentMonth d) url mode)
           + int (count_list reqs (url, mode)) \<le> 2 ^ 53"
    using assms(3,5) by (simp_all add: count_value_def)
  ultimately show ?thesis
    using log_all_count[OF assms(1) r] assms(3,4) r by (simp add: count_value_def)
qed

text \<open>
  C2. The claim is that after \<open>N\<close> successful scrapes of one url and mode within a month
  the counter holds \<open>N\<close> for the triple. The handler accepts any mode and counts it under
  its name; for the mode \<^verbatim>\<open>constructor\<close>, a member every plain object inherits, the counter
  holds \<^verbatim>\<open>NaN\<close> after one scrape and \<open>1\<close> after two, and the request itself is answered
  200 with the text of the page.
\<close>

theorem inherited_mode_name_miscounted:
  "log_all ''2026-11'' [(''https://example.com'', ''constructor'')] []
     = Recorded [(''2026-11'', [(''https://example.com'', [(''constructor'', NaN)])])]
   \<and> log_all ''2026-11'' [(''https://example.com'', ''constructor''),
                           (''https://example.com'', ''constructor'')] []
     = Recorded [(''2026-11'', [(''https://example.com'', [(''constructor'', Num 1)])])]
   \<and> handler_reply sample_env (sample_request (Some ''constructor'')) empty_state
     = Reply 200 (ContentBody ''Hello World'')
   \<and> stat_count (scrapeStats (handler_state sample_env (sample_request (Some ''constructor''))
                    empty_state)) ''2026-11'' ''https://example.com'' ''constructor''
     = Some NaN"
proof -
  have 1: "log_all ''2026-11'' [(''https://example.com'', ''constructor'')] []
     = Recorded [(''2026-11'', [(''https://example.com'', [(''constructor'', NaN)])])]"
    by (simp add: count_eval)
  have 2: "log_all ''2026-11'' [(''https://example.com'', ''constructor''),
                           (''https://example.com'', ''constructor'')] []
     = Recorded [(''2026-11'', [(''https://example.com'', [(''constructor'', Num 1)])])]"
    by (simp add: count_eval)
  have l: "logScrape_mem ''2026-11'' ''https://example.com'' ''constructor'' []
     = Recorded [(''2026-11'', [(''https://example.com'', [(''constructor'', NaN)])])]"
    using 1 by (simp split: log_outcome.splits)
  have h: "scrape_handler sample_env (sample_request (Some ''constructor'')) empty_state
     = (Reply 200 (ContentBody ''Hello World''),
        \<lparr>scrapeStats = [(''2026-11'', [(''https://example.com'', [(''constructor'', NaN)])])],
         stats_file = Some [(''2026-11'', [(''https://example.com'', [(''constructor'', NaN)])])]\<rparr>,
        [GetBrowser, NewPage, Goto ''https://example.com'', Extract, LogScrape, PageClose])"
    by (simp add: scrape_handler_def scrape_try_def sample_eval truthy_str_def
        dispatch_def extractReadableContent_def logScrape_def getCurrentMonth_example l
        saveStats_def Let_def mode_key_def close_page_calls)
  from 1 2 h show ?thesis
    by (simp add: handler_reply_def handler_state_def stat_count_def)
qed

section \<open>Properties of the browser session\<close>

lemmas gb_eval = two_callers_def gb_init_def in_flight_def pcs_of_def

lemma call_shares_stored_promise:
  "browserPromise s = Some n \<Longrightarrow> pc s c = Idle \<Longrightarrow>
   gb_step (Call c) s = Some (s\<lparr>pc := (pc s)(c := Got n)\<rparr>)"
  by simp

text \<open>
  C1. The claim is that callers of \<^verbatim>\<open>getBrowser\<close> that arrive while no browser exists share
  one launch. \<^verbatim>\<open>getBrowser\<close> stores the launch promise only after it has awaited
  \<^verbatim>\<open>which chromium\<close>: with two callers that both test \<^verbatim>\<open>browserPromise\<close> before either has
  stored one, two launches are started and are pending together, and each caller holds
  the promise of its own launch.
\<close>

theorem concurrent_callers_launch_twice:
  "map_option launches (gb_run two_callers gb_init) = Some [Pending, Pending]
   \<and> map_option in_flight (gb_run two_callers gb_init) = Some 2
   \<and> map_option (pcs_of [0, 1]) (gb_run two_callers gb_init) = Some [Got 0, Got 1]"
  by (simp add: gb_eval)

text \<open>
  C4. When a pending launch fails, \<^verbatim>\<open>browserPromise\<close> is \<^verbatim>\<open>null\<close> afterwards, every caller
  that holds the promise of that launch gets the rejection, and a call of \<^verbatim>\<open>getBrowser\<close>
  made in that state awaits \<^verbatim>\<open>which chromium\<close> again and starts a new launch.
\<close>

theorem launch_failure_clears_and_propagates:
  assumes "gb_step (LaunchFail n) s = Some s'"
  shows "browserPromise s' = None
     \<and> (\<forall>c. pc s c = Got n \<longrightarrow> caller_outcome s' c = Rejected)
     \<and> (\<forall>c. pc s' c = Idle \<longrightarrow>
           (\<exists>s1 s2. gb_step (Call c) s' = Some s1 \<and> pc s1 c = AwaitWhich
              \<and> launches s1 = launches s'
              \<and> gb_step (WhichDone c) s1 = Some s2
              \<and> launches s2 = launches s' @ [Pending]
              \<and> browserPromise s2 = Some (length (launches s'))
              \<and> pc s2 c = Got (length (launches s'))))"
proof -
  from assms have n: "n < length (launches s)" "launches s ! n = Pending"
    and s': "s' = s\<lparr>browserPromise := None, launches := (launches s)[n := Failed]\<rparr>"
    by (auto split: if_splits)
  have 1: "browserPromise s' = None" by (simp add: s')
  have 2: "caller_outcome s' c = Rejected" if "pc s c = Got n" for c
    using that n by (simp add: caller_outcome_def s')
  have 3: "\<exists>s1 s2. gb_step (Call c) s' = Some s1 \<and> pc s1 c = AwaitWhich
              \<and> launches s1 = launches s'
              \<and> gb_step (WhichDone c) s1 = Some s2
              \<and> launches s2 = launches s' @ [Pending]
              \<and> browserPromise s2 = Some (length (launches s'))
              \<and> pc s2 c = Got (length (launches s'))" if "pc s' c = Idle" for c
    using that by (simp add: s')
  from 1 2 3 show ?thesis by blast
qed

theorem launch_failure_clears_and_propagates_witness:
  "gb_step (LaunchFail 0) sample_waiting
      = Some (sample_waiting\<lparr>browserPromise := None, launches := [Failed]\<rparr>)
   \<and> pc sample_waiting 0 = Got 0 \<and> pc sample_waiting 1 = Got 0 \<and> pc sample_waiting 2 = Idle
   \<and> caller_outcome (sample_waiting\<lparr>browserPromise := None, launches := [Failed]\<rparr>) 0 = Rejected
   \<and> caller_outcome (sample_waiting\<lparr>browserPromise := None, launches := [Failed]\<rparr>) 1 = Rejected
   \<and> map_option launches
        (gb_run [Call 2, WhichDone 2]
           (sample_waiting\<lparr>browserPromise := None, launches := [Failed]\<rparr>))
       = Some [Failed, Pending]"
proof -
  let ?s' = "sample_waiting\<lparr>browserPromise := None, launches := [Failed]\<rparr>"
  have step: "gb_step (LaunchFail 0) sample_waiting = Some ?s'"
    by (simp add: sample_waiting_def)
  have idle: "pc ?s' 2 = Idle" by (simp add: sample_waiting_def)
  from launch_failure_clears_and_propagates[OF step] idle
  obtain s1 s2 where "gb_step (Call 2) ?s' = Some s1" "gb_step (WhichDone 2) s1 = Some s2"
    "launches s2 = launches ?s' @ [Pending]"
    by blast
  then have "map_option launches (gb_run [Call 2, WhichDone 2] ?s') = Some [Failed, Pending]"
    by (simp add: sample_waiting_def)
  moreover from launch_failure_clears_and_propagates[OF step]
  have "caller_outcome ?s' 0 = Rejected" "caller_outcome ?s' 1 = Rejected"
    by (simp_all add: sample_waiting_def)
  ultimately show ?thesis using step by (simp add: sample_waiting_def)
qed

end
